theory Spec2Isabelle
  imports Main "HOL-Library.AList"
begin

section \<open>Data model (models.py)\<close>

text \<open>
  \<^verbatim>\<open>class Color(BaseModel)\<close>: three channels, each a Python int that the field type
  \<^verbatim>\<open>conint(ge=0, le=255)\<close> constrains at construction.
\<close>

record Color =
  r :: int
  g :: int
  b :: int

text \<open>
  \<^verbatim>\<open>decimal.Decimal\<close>, finite values only: a signed coefficient and a power-of-ten
  exponent, denoting \<open>coefficient * 10 ^ exponent\<close>. Two decimals with different
  exponents can denote the same number (\<open>1.0\<close> is \<open>Dec 10 (-1)\<close>, \<open>1\<close> is \<open>Dec 1 0\<close>).
  A pydantic field of type \<^verbatim>\<open>Decimal\<close> holds no other Decimal: its validation rejects
  NaN and the infinities.
\<close>

datatype Decimal = Dec (coefficient: int) (exponent: int)

text \<open>
  \<^verbatim>\<open>Value = Union[int, Decimal, str, Color]\<close>, as a validated field of that type holds
  it: the cells of a \<^verbatim>\<open>Row\<close>, and the \<^verbatim>\<open>value\<close> that the request layer hands to
  \<^verbatim>\<open>update_cell_value\<close>.
\<close>

datatype Value = VInt int | VDecimal Decimal | VStr string | VColor Color

text \<open>The Decimals that are not finite numbers.\<close>

datatype nonfinite = NaN | Infinity | NegInfinity

text \<open>
  An object passed to \<^verbatim>\<open>Table.add_row\<close> as a cell. The annotation \<^verbatim>\<open>cells: list[Value]\<close>
  of that method validates nothing, so besides a \<open>Value\<close> a cell can be a Decimal
  that is not finite.
\<close>

datatype cell = Cell Value | NonFinite nonfinite

datatype Type = Integer | Real | Char | String | Color | ColorInvl

record Column =
  name :: string
  type :: Type
  r_min :: "int option"
  r_max :: "int option"
  g_min :: "int option"
  g_max :: "int option"
  b_min :: "int option"
  b_max :: "int option"

record Row =
  row_id :: nat
  cells :: "Value list"

text \<open>
  Field names are those of models.py, except where two classes share one or the name
  is a constant of HOL: \<^verbatim>\<open>Row.id\<close> is \<open>row_id\<close>, \<^verbatim>\<open>Table.id\<close> and \<^verbatim>\<open>Table.name\<close> are
  \<open>table_id\<close> and \<open>table_name\<close>, \<^verbatim>\<open>Table._rows\<close> and \<^verbatim>\<open>Table._next_id\<close> are \<open>rows\<close> and
  \<open>next_id\<close>, \<^verbatim>\<open>Database.name\<close> and \<^verbatim>\<open>Database._next_id\<close> are \<open>database_name\<close> and
  \<open>db_next_id\<close>, the \<^verbatim>\<open>columns\<close> and \<^verbatim>\<open>rows\<close> of a \<^verbatim>\<open>TableDifference\<close> are
  \<open>diff_columns\<close> and \<open>diff_rows\<close>. \<^verbatim>\<open>Table.__sub__\<close> is \<open>difference\<close>.

  A Python dict keeps its keys in insertion order; it is an association list here.
  \<^verbatim>\<open>d[k] = v\<close> is \<^const>\<open>AList.update\<close> (overwrite in place, or append),
  \<^verbatim>\<open>del d[k]\<close> is \<^const>\<open>AList.delete\<close>, \<^verbatim>\<open>k in d\<close> is membership in the keys.
\<close>

type_synonym ('k, 'v) dict = "('k \<times> 'v) list"

record Table =
  table_id :: nat
  table_name :: string
  columns :: "Column list"
  rows :: "(nat, Row) dict"
  next_id :: nat

record Database =
  database_name :: string
  tables :: "(nat, Table) dict"
  db_next_id :: nat

record TableDifference =
  left_table :: Table
  right_table :: Table
  diff_columns :: "Column list"
  diff_rows :: "(nat, Row) dict"

text \<open>
  Every exception of models.py is a \<^verbatim>\<open>ValueError\<close> told apart by its message; the
  constructors name the raise sites. \<open>ConstraintError\<close> is the rejection of a field
  by \<^verbatim>\<open>conint(ge=0, le=255)\<close>, \<open>PyTypeError\<close> the \<^verbatim>\<open>TypeError\<close> of comparing
  \<^verbatim>\<open>None\<close> with an int, \<open>PyIndexError\<close> a list index out of range.
  \<open>TypeMismatchNonFinite\<close> is the error of \<^verbatim>\<open>check_value\<close> raised for a Decimal that is
  not finite, \<open>ValidationError\<close> the rejection of the cells by the constructor of
  \<^verbatim>\<open>Row\<close>.
\<close>

datatype error =
    MissingRange
  | RangeOutOfOrder char
  | UnexpectedRange
  | ConstraintError
  | TypeMismatch Column Value
  | TypeMismatchNonFinite Column nonfinite
  | ValidationError
  | PyTypeError
  | PyIndexError
  | RowLengthMismatch
  | IncompatibleColumnCount
  | IncompatibleColumnTypes

section \<open>Column\<close>

definition bounds :: "Column \<Rightarrow> int option list" where
  "bounds c = [r_min c, r_max c, g_min c, g_max c, b_min c, b_max c]"

text \<open>\<^verbatim>\<open>getattr(self, f'{field}_min')\<close> and \<^verbatim>\<open>getattr(self, f'{field}_max')\<close>\<close>

definition field_min :: "Column \<Rightarrow> char \<Rightarrow> int option" where
  "field_min c f = (if f = CHR ''r'' then r_min c else if f = CHR ''g'' then g_min c else b_min c)"

definition field_max :: "Column \<Rightarrow> char \<Rightarrow> int option" where
  "field_max c f = (if f = CHR ''r'' then r_max c else if f = CHR ''g'' then g_max c else b_max c)"

text \<open>\<^verbatim>\<open>a > b\<close> on two optional ints; comparing with \<^verbatim>\<open>None\<close> raises \<^verbatim>\<open>TypeError\<close>.\<close>

fun py_gt :: "int option \<Rightarrow> int option \<Rightarrow> error + bool" where
  "py_gt (Some x) (Some y) = Inr (x > y)"
| "py_gt _ _ = Inl PyTypeError"

fun py_le :: "int option \<Rightarrow> int option \<Rightarrow> error + bool" where
  "py_le (Some x) (Some y) = Inr (x \<le> y)"
| "py_le _ _ = Inl PyTypeError"

text \<open>The loop \<^verbatim>\<open>for field in 'rgb'\<close> of \<^verbatim>\<open>Column.check\<close>.\<close>

fun check_order :: "Column \<Rightarrow> string \<Rightarrow> error + Column" where
  "check_order c [] = Inr c"
| "check_order c (f # fs) =
     (case py_gt (field_min c f) (field_max c f) of
        Inl e \<Rightarrow> Inl e
      | Inr True \<Rightarrow> Inl (RangeOutOfOrder f)
      | Inr False \<Rightarrow> check_order c fs)"

text \<open>\<^verbatim>\<open>Column.check\<close>, the model validator run after the fields are validated.\<close>

definition check :: "Column \<Rightarrow> error + Column" where
  "check c =
     (if type c = ColorInvl then
        (if None \<in> set (bounds c) then Inl MissingRange
         else check_order c ''rgb'')
      else
        (if \<not> list_all (\<lambda>x. x = None) (bounds c) then Inl UnexpectedRange
         else Inr c))"

text \<open>The field type \<^verbatim>\<open>Optional[conint(ge=0, le=255)]\<close>.\<close>

definition conint_ok :: "int option \<Rightarrow> bool" where
  "conint_ok x = (case x of None \<Rightarrow> True | Some v \<Rightarrow> 0 \<le> v \<and> v \<le> 255)"

text \<open>
  The constructor \<^verbatim>\<open>Column(name=..., type=..., r_min=..., ...)\<close>: the fields are
  validated against their types, then \<^verbatim>\<open>check\<close> runs.
\<close>

definition Column_init :: "Column \<Rightarrow> error + Column" where
  "Column_init c =
     (if \<not> list_all conint_ok (bounds c) then Inl ConstraintError else check c)"

text \<open>\<^verbatim>\<open>Column.check_value\<close>: the chained comparison \<^verbatim>\<open>lo <= v <= hi\<close>.\<close>

definition chained_le :: "int option \<Rightarrow> int \<Rightarrow> int option \<Rightarrow> error + bool" where
  "chained_le lo v hi =
     (case py_le lo (Some v) of
        Inl e \<Rightarrow> Inl e
      | Inr False \<Rightarrow> Inr False
      | Inr True \<Rightarrow> py_le (Some v) hi)"

text \<open>\<^verbatim>\<open>x and y\<close> where evaluating either side may raise.\<close>

definition py_and :: "error + bool \<Rightarrow> error + bool \<Rightarrow> error + bool" where
  "py_and x y = (case x of Inl e \<Rightarrow> Inl e | Inr False \<Rightarrow> Inr False | Inr True \<Rightarrow> y)"

text \<open>The asserted condition of each branch of \<^verbatim>\<open>check_value\<close>.\<close>

fun value_cond :: "Column \<Rightarrow> Value \<Rightarrow> error + bool" where
  "value_cond c v =
     (case type c of
        Integer \<Rightarrow> Inr (case v of VInt _ \<Rightarrow> True | _ \<Rightarrow> False)
      | Real \<Rightarrow> Inr (case v of VInt _ \<Rightarrow> True | VDecimal _ \<Rightarrow> True | _ \<Rightarrow> False)
      | Char \<Rightarrow> Inr (case v of VStr s \<Rightarrow> length s = 1 | _ \<Rightarrow> False)
      | String \<Rightarrow> Inr (case v of VStr _ \<Rightarrow> True | _ \<Rightarrow> False)
      | Color \<Rightarrow> Inr (case v of VColor _ \<Rightarrow> True | _ \<Rightarrow> False)
      | ColorInvl \<Rightarrow>
          (case v of
             VColor k \<Rightarrow>
               py_and (chained_le (r_min c) (r k) (r_max c))
                 (py_and (chained_le (g_min c) (g k) (g_max c))
                    (chained_le (b_min c) (b k) (b_max c)))
           | _ \<Rightarrow> Inr False))"

definition check_value :: "Column \<Rightarrow> Value \<Rightarrow> error + unit" where
  "check_value c v =
     (case value_cond c v of
        Inl e \<Rightarrow> Inl e
      | Inr False \<Rightarrow> Inl (TypeMismatch c v)
      | Inr True \<Rightarrow> Inr ())"

text \<open>
  \<^verbatim>\<open>Column.check_value\<close> on a cell of \<^verbatim>\<open>add_row\<close>. A Decimal that is not finite is an
  instance of \<^verbatim>\<open>Decimal\<close> and of none of \<^verbatim>\<open>int\<close>, \<^verbatim>\<open>str\<close>, \<^verbatim>\<open>Color\<close>: the branch
  of \<open>Real\<close> accepts it and every other branch fails its assertion.
\<close>

fun check_cell :: "Column \<Rightarrow> cell \<Rightarrow> error + unit" where
  "check_cell c (Cell v) = check_value c v"
| "check_cell c (NonFinite d) =
     (if type c = Real then Inr () else Inl (TypeMismatchNonFinite c d))"

text \<open>
  \<^verbatim>\<open>Column.get_type(name)\<close>: a new column built from this one's type and from its
  \<^verbatim>\<open>r_min\<close> and \<^verbatim>\<open>r_max\<close>, which the source passes for all three channels.
\<close>

definition get_type :: "Column \<Rightarrow> string \<Rightarrow> error + Column" where
  "get_type c n =
     Column_init \<lparr>name = n, type = type c,
       r_min = r_min c, r_max = r_max c,
       g_min = r_min c, g_max = r_max c,
       b_min = r_min c, b_max = r_max c\<rparr>"

section \<open>Equality of cells\<close>

text \<open>
  \<^verbatim>\<open>Decimal.__eq__\<close> compares numeric values: both coefficients are scaled to the
  smaller exponent and compared as integers.
\<close>

fun decimal_eq :: "Decimal \<Rightarrow> Decimal \<Rightarrow> bool" where
  "decimal_eq (Dec c1 e1) (Dec c2 e2) =
     (c1 * 10 ^ nat (e1 - min e1 e2) = c2 * 10 ^ nat (e2 - min e1 e2))"

text \<open>
  Python's \<^verbatim>\<open>==\<close> on two cell values. An int and a Decimal compare by numeric value
  (the int is converted to a Decimal of exponent 0); a str equals only a str, a Color
  only a Color with the same three channels.
\<close>

fun value_eq :: "Value \<Rightarrow> Value \<Rightarrow> bool" where
  "value_eq (VInt i) (VInt j) = (i = j)"
| "value_eq (VInt i) (VDecimal d) = decimal_eq (Dec i 0) d"
| "value_eq (VDecimal d) (VInt i) = decimal_eq d (Dec i 0)"
| "value_eq (VDecimal d) (VDecimal e) = decimal_eq d e"
| "value_eq (VStr s) (VStr t) = (s = t)"
| "value_eq (VColor k) (VColor l) = (k = l)"
| "value_eq _ _ = False"

text \<open>\<^verbatim>\<open>row.cells == value.cells\<close>: list equality, same length and pairwise \<^verbatim>\<open>==\<close>.\<close>

definition cells_eq :: "Value list \<Rightarrow> Value list \<Rightarrow> bool" where
  "cells_eq xs ys = list_all2 value_eq xs ys"

section \<open>Table\<close>

text \<open>\<^verbatim>\<open>Table(id=..., name=..., columns=...)\<close>: no rows, counter at 0.\<close>

definition Table_init :: "nat \<Rightarrow> string \<Rightarrow> Column list \<Rightarrow> Table" where
  "Table_init i n cs = \<lparr>table_id = i, table_name = n, columns = cs, rows = [], next_id = 0\<rparr>"

text \<open>
  The loop \<^verbatim>\<open>for i in range(len(self.columns)): self.columns[i].check_value(cells[i])\<close>;
  a missing cell would be an \<^verbatim>\<open>IndexError\<close>.
\<close>

fun check_cells :: "Column list \<Rightarrow> cell list \<Rightarrow> error + unit" where
  "check_cells [] xs = Inr ()"
| "check_cells (c # cs) [] = Inl PyIndexError"
| "check_cells (c # cs) (x # xs) =
     (case check_cell c x of Inl e \<Rightarrow> Inl e | Inr _ \<Rightarrow> check_cells cs xs)"

text \<open>
  The validation of the field \<^verbatim>\<open>cells: list[Value]\<close> by the constructor of \<^verbatim>\<open>Row\<close>: an
  int, a finite Decimal, a str and a \<^verbatim>\<open>Color\<close> are kept as they are, a Decimal that is
  not finite is refused.
\<close>

fun validate_cells :: "cell list \<Rightarrow> Value list option" where
  "validate_cells [] = Some []"
| "validate_cells (Cell v # xs) =
     (case validate_cells xs of None \<Rightarrow> None | Some vs \<Rightarrow> Some (v # vs))"
| "validate_cells (NonFinite d # xs) = None"

text \<open>The constructor \<^verbatim>\<open>Row(id=..., cells=...)\<close>.\<close>

definition Row_init :: "nat \<Rightarrow> cell list \<Rightarrow> error + Row" where
  "Row_init i xs =
     (case validate_cells xs of
        None \<Rightarrow> Inl ValidationError
      | Some vs \<Rightarrow> Inr \<lparr>row_id = i, cells = vs\<rparr>)"

text \<open>
  \<^verbatim>\<open>Table.add_row\<close>: the outcome (the exception raised or the row returned) and the
  table after the call.
\<close>

definition add_row :: "Table \<Rightarrow> cell list \<Rightarrow> (error + Row) \<times> Table" where
  "add_row t xs =
     (if length xs \<noteq> length (columns t) then (Inl RowLengthMismatch, t)
      else case check_cells (columns t) xs of
        Inl e \<Rightarrow> (Inl e, t)
      | Inr _ \<Rightarrow>
          (case Row_init (next_id t) xs of
             Inl e \<Rightarrow> (Inl e, t)
           | Inr row \<Rightarrow>
               (Inr row,
                t\<lparr>rows := AList.update (next_id t) row (rows t),
                  next_id := next_id t + 1\<rparr>)))"

definition remove_row :: "Table \<Rightarrow> nat \<Rightarrow> Table" where
  "remove_row t i =
     (if i \<in> set (map fst (rows t)) then t\<lparr>rows := AList.delete i (rows t)\<rparr> else t)"

definition contains_row :: "Table \<Rightarrow> Row \<Rightarrow> bool" where
  "contains_row t row = list_ex (\<lambda>v. cells_eq (cells row) (cells v)) (map snd (rows t))"

text \<open>
  \<^verbatim>\<open>any(l.get_type() != r.get_type() for l, r in zip(left.columns, right.columns))\<close>:
  pairs are visited in order and the scan stops at the first unequal pair.
\<close>

fun any_type_differs :: "(Column \<times> Column) list \<Rightarrow> error + bool" where
  "any_type_differs [] = Inr False"
| "any_type_differs ((l, r') # ps) =
     (case get_type l [] of
        Inl e \<Rightarrow> Inl e
      | Inr lt \<Rightarrow>
          (case get_type r' [] of
             Inl e \<Rightarrow> Inl e
           | Inr rt \<Rightarrow> if lt \<noteq> rt then Inr True else any_type_differs ps))"

text \<open>\<^verbatim>\<open>l.name if l.name == r.name else f"'{l.name}' / '{r.name}'"\<close>\<close>

definition combined_name :: "Column \<Rightarrow> Column \<Rightarrow> string" where
  "combined_name l r' =
     (if name l = name r' then name l
      else [CHR 0x27] @ name l @ [CHR 0x27] @ '' / '' @ [CHR 0x27] @ name r' @ [CHR 0x27])"

fun combine_columns :: "(Column \<times> Column) list \<Rightarrow> error + Column list" where
  "combine_columns [] = Inr []"
| "combine_columns ((l, r') # ps) =
     (case get_type l (combined_name l r') of
        Inl e \<Rightarrow> Inl e
      | Inr c \<Rightarrow> (case combine_columns ps of Inl e \<Rightarrow> Inl e | Inr cs \<Rightarrow> Inr (c # cs)))"

text \<open>
  The loop \<^verbatim>\<open>for id, row in left._rows.items(): if not right.contains_row(row): rows[id] = row\<close>,
  with the dict \<^verbatim>\<open>rows\<close> as accumulator.
\<close>

fun difference_rows :: "Table \<Rightarrow> (nat \<times> Row) list \<Rightarrow> (nat, Row) dict \<Rightarrow> (nat, Row) dict" where
  "difference_rows right [] acc = acc"
| "difference_rows right ((i, row) # items) acc =
     difference_rows right items
       (if \<not> contains_row right row then AList.update i row acc else acc)"

text \<open>\<^verbatim>\<open>Table.__sub__\<close>\<close>

definition difference :: "Table \<Rightarrow> Table \<Rightarrow> error + TableDifference" where
  "difference left right =
     (if length (columns left) \<noteq> length (columns right) then Inl IncompatibleColumnCount
      else case any_type_differs (zip (columns left) (columns right)) of
        Inl e \<Rightarrow> Inl e
      | Inr True \<Rightarrow> Inl IncompatibleColumnTypes
      | Inr False \<Rightarrow>
          (case combine_columns (zip (columns left) (columns right)) of
             Inl e \<Rightarrow> Inl e
           | Inr cs \<Rightarrow>
               Inr \<lparr>left_table = left, right_table = right, diff_columns = cs,
                    diff_rows = difference_rows right (rows left) []\<rparr>))"

section \<open>Database\<close>

definition Database_init :: "string \<Rightarrow> Database" where
  "Database_init n = \<lparr>database_name = n, tables = [], db_next_id = 0\<rparr>"

definition add_table :: "Database \<Rightarrow> string \<Rightarrow> Column list \<Rightarrow> Table \<times> Database" where
  "add_table d n cs =
     (let table = Table_init (db_next_id d) n cs
      in (table,
          d\<lparr>tables := AList.update (db_next_id d) table (tables d),
            db_next_id := db_next_id d + 1\<rparr>))"

definition remove_table :: "Database \<Rightarrow> nat \<Rightarrow> Database" where
  "remove_table d i =
     (if i \<in> set (map fst (tables d)) then d\<lparr>tables := AList.delete i (tables d)\<rparr> else d)"

section \<open>Request layer (main.py)\<close>

text \<open>
  The \<^verbatim>\<open>HTTPException\<close>s of main.py: the four 404 lookups, the 400 that wraps a
  caught \<^verbatim>\<open>ValueError\<close>, and an exception that no handler catches.
\<close>

datatype http_error =
    DatabaseNotFound string
  | TableNotFound string nat
  | RowNotFound string nat nat
  | ColumnNotFound string nat nat
  | BadRequest error
  | Uncaught error

text \<open>The module-level registry \<^verbatim>\<open>databases: dict[str, Database]\<close>.\<close>

type_synonym databases = "(string, Database) dict"

definition get_database :: "databases \<Rightarrow> string \<Rightarrow> http_error + Database" where
  "get_database dbs dn =
     (case map_of dbs dn of None \<Rightarrow> Inl (DatabaseNotFound dn) | Some d \<Rightarrow> Inr d)"

definition get_table :: "databases \<Rightarrow> string \<Rightarrow> nat \<Rightarrow> http_error + Table" where
  "get_table dbs dn ti =
     (case get_database dbs dn of
        Inl e \<Rightarrow> Inl e
      | Inr d \<Rightarrow>
          (case map_of (tables d) ti of None \<Rightarrow> Inl (TableNotFound dn ti) | Some t \<Rightarrow> Inr t))"

definition get_row :: "databases \<Rightarrow> string \<Rightarrow> nat \<Rightarrow> nat \<Rightarrow> http_error + Row" where
  "get_row dbs dn ti ri =
     (case get_table dbs dn ti of
        Inl e \<Rightarrow> Inl e
      | Inr t \<Rightarrow>
          (case map_of (rows t) ri of None \<Rightarrow> Inl (RowNotFound dn ti ri) | Some row \<Rightarrow> Inr row))"

text \<open>\<^verbatim>\<open>except ValueError as err\<close>: which exceptions of the engine are \<^verbatim>\<open>ValueError\<close>s.\<close>

definition is_ValueError :: "error \<Rightarrow> bool" where
  "is_ValueError e = (e \<noteq> PyTypeError \<and> e \<noteq> PyIndexError)"

text \<open>
  The row object lives in its table's dict, the table in its database's dict, the
  database in the registry; writing a cell of the row in place is this nested update.
\<close>

definition store_row :: "databases \<Rightarrow> string \<Rightarrow> nat \<Rightarrow> nat \<Rightarrow> Row \<Rightarrow> databases" where
  "store_row dbs dn ti ri row =
     (case map_of dbs dn of
        None \<Rightarrow> dbs
      | Some d \<Rightarrow>
          (case map_of (tables d) ti of
             None \<Rightarrow> dbs
           | Some t \<Rightarrow>
               AList.update dn
                 (d\<lparr>tables := AList.update ti (t\<lparr>rows := AList.update ri row (rows t)\<rparr>) (tables d)\<rparr>)
                 dbs))"

text \<open>\<^verbatim>\<open>update_cell_value\<close>: the response (an error or the row) and the registry after the call.\<close>

definition update_cell_value ::
  "databases \<Rightarrow> string \<Rightarrow> nat \<Rightarrow> nat \<Rightarrow> nat \<Rightarrow> Value \<Rightarrow> (http_error + Row) \<times> databases" where
  "update_cell_value dbs dn ti ri ci v =
     (case get_table dbs dn ti of
        Inl e \<Rightarrow> (Inl e, dbs)
      | Inr t \<Rightarrow>
          (case get_row dbs dn ti ri of
             Inl e \<Rightarrow> (Inl e, dbs)
           | Inr row \<Rightarrow>
               if ci \<ge> length (columns t) then (Inl (ColumnNotFound dn ti ci), dbs)
               else
                 (case check_value (columns t ! ci) v of
                    Inl e \<Rightarrow> (Inl (if is_ValueError e then BadRequest e else Uncaught e), dbs)
                  | Inr _ \<Rightarrow>
                      if ci < length (cells row) then
                        (let row' = row\<lparr>cells := (cells row)[ci := v]\<rparr>
                         in (Inr row', store_row dbs dn ti ri row'))
                      else (Inl (Uncaught PyIndexError), dbs))))"

section \<open>Well-formed columns and tables\<close>

text \<open>A column that its constructor accepts: every \<^verbatim>\<open>Column\<close> object of the program is one.\<close>

definition Column_ok :: "Column \<Rightarrow> bool" where
  "Column_ok c = (Column_init c = Inr c)"

text \<open>
  The row dict of a table: keys are unique (it is a dict), each row is stored under its
  own id, below the counter, and has one cell per column.
\<close>

definition Table_ok :: "Table \<Rightarrow> bool" where
  "Table_ok t =
     (distinct (map fst (rows t)) \<and>
      list_all (\<lambda>p. row_id (snd p) = fst p \<and> fst p < next_id t \<and>
                     length (cells (snd p)) = length (columns t)) (rows t))"

text \<open>
  The invariant of a column in the words of the data model: the range is present (all six
  bounds) for \<open>ColorInvl\<close> with each channel's min at most its max, and no bound is set
  for any other type.
\<close>

definition range_present :: "Column \<Rightarrow> bool" where
  "range_present c = list_all (\<lambda>x. x \<noteq> None) (bounds c)"

definition range_absent :: "Column \<Rightarrow> bool" where
  "range_absent c = list_all (\<lambda>x. x = None) (bounds c)"

fun opt_le :: "int option \<Rightarrow> int option \<Rightarrow> bool" where
  "opt_le (Some x) (Some y) = (x \<le> y)"
| "opt_le _ _ = False"

definition range_ordered :: "Column \<Rightarrow> bool" where
  "range_ordered c =
     (opt_le (r_min c) (r_max c) \<and> opt_le (g_min c) (g_max c) \<and> opt_le (b_min c) (b_max c))"

definition Column_invariant :: "Column \<Rightarrow> bool" where
  "Column_invariant c =
     (if type c = ColorInvl then range_present c \<and> range_ordered c else range_absent c)"

text \<open>
  The type signature of a column in the words of the data model: the column's type and
  its range, each channel with its own bounds, the name stripped.
\<close>

definition type_signature :: "Column \<Rightarrow> Column" where
  "type_signature c = c\<lparr>name := []\<rparr>"

section \<open>Sequences of calls\<close>

text \<open>
  A client's calls on one table, and the ids of the rows that \<^verbatim>\<open>add_row\<close> returned,
  in call order, with the table after the last call.
\<close>

datatype table_call = AddRow "cell list" | RemoveRow nat

fun run_table_calls :: "Table \<Rightarrow> table_call list \<Rightarrow> nat list \<times> Table" where
  "run_table_calls t [] = ([], t)"
| "run_table_calls t (AddRow vs # cs) =
     (case add_row t vs of
        (Inl e, t') \<Rightarrow> run_table_calls t' cs
      | (Inr row, t') \<Rightarrow>
          (row_id row # fst (run_table_calls t' cs), snd (run_table_calls t' cs)))"
| "run_table_calls t (RemoveRow i # cs) = run_table_calls (remove_row t i) cs"

datatype database_call = AddTable string "Column list" | RemoveTable nat

fun run_database_calls :: "Database \<Rightarrow> database_call list \<Rightarrow> nat list \<times> Database" where
  "run_database_calls d [] = ([], d)"
| "run_database_calls d (AddTable n cols # cs) =
     (case add_table d n cols of
        (table, d') \<Rightarrow>
          (table_id table # fst (run_database_calls d' cs), snd (run_database_calls d' cs)))"
| "run_database_calls d (RemoveTable i # cs) = run_database_calls (remove_table d i) cs"

text \<open>The cell sequences of a difference's rows, in dict order.\<close>

definition difference_cells :: "Table \<Rightarrow> Table \<Rightarrow> error + Value list list" where
  "difference_cells left right =
     (case difference left right of Inl e \<Rightarrow> Inl e | Inr d \<Rightarrow> Inr (map (cells \<circ> snd) (diff_rows d)))"

section \<open>Example schemas and tables\<close>

definition plain_column :: "string \<Rightarrow> Type \<Rightarrow> Column" where
  "plain_column n ty =
     \<lparr>name = n, type = ty, r_min = None, r_max = None,
      g_min = None, g_max = None, b_min = None, b_max = None\<rparr>"

definition invl_column :: "string \<Rightarrow> int \<Rightarrow> int \<Rightarrow> int \<Rightarrow> int \<Rightarrow> int \<Rightarrow> int \<Rightarrow> Column" where
  "invl_column n rl rh gl gh bl bh =
     \<lparr>name = n, type = ColorInvl, r_min = Some rl, r_max = Some rh,
      g_min = Some gl, g_max = Some gh, b_min = Some bl, b_max = Some bh\<rparr>"

text \<open>Rows are inserted through \<^const>\<open>add_row\<close>, as a client would.\<close>

definition table_of :: "nat \<Rightarrow> string \<Rightarrow> Column list \<Rightarrow> Value list list \<Rightarrow> Table" where
  "table_of i n cs rws = fold (\<lambda>vs t. snd (add_row t (map Cell vs))) rws (Table_init i n cs)"

definition int_str_columns :: "Column list" where
  "int_str_columns = [plain_column ''n'' Integer, plain_column ''s'' String]"

definition dup_left :: Table where
  "dup_left = table_of 0 ''left'' int_str_columns
     [ [VInt 1, VStr ''a''], [VInt 2, VStr ''b''], [VInt 1, VStr ''a''] ]"

definition dup_right :: Table where
  "dup_right = table_of 1 ''right'' int_str_columns [ [VInt 1, VStr ''a''] ]"

definition real_left :: Table where
  "real_left = table_of 0 ''left'' [plain_column ''x'' Real] [ [VInt 1] ]"

definition real_right :: Table where
  "real_right = table_of 1 ''right'' [plain_column ''x'' Real] [ [VDecimal (Dec 10 (- 1))] ]"

text \<open>A registry with one database holding the table \<open>dup_left\<close> under id 0.\<close>

definition one_database :: databases where
  "one_database = [(''db'', \<lparr>database_name = ''db'', tables = [(0, dup_left)], db_next_id = 1\<rparr>)]"

section \<open>Column construction\<close>

lemma check_ColorInvl_present:
  assumes "type c = ColorInvl"
    and "bounds c = [Some a1, Some a2, Some b1, Some b2, Some c1, Some c2]"
  shows "check c =
     (if a1 > a2 then Inl (RangeOutOfOrder CHR ''r'')
      else if b1 > b2 then Inl (RangeOutOfOrder CHR ''g'')
      else if c1 > c2 then Inl (RangeOutOfOrder CHR ''b'')
      else Inr c)"
  using assms by (simp add: check_def field_min_def field_max_def bounds_def)

lemma range_present_iff:
  "range_present c \<longleftrightarrow>
     (\<exists>a1 a2 b1 b2 c1 c2. bounds c = [Some a1, Some a2, Some b1, Some b2, Some c1, Some c2])"
  by (cases "r_min c"; cases "r_max c"; cases "g_min c"; cases "g_max c";
      cases "b_min c"; cases "b_max c"; simp add: range_present_def bounds_def)

lemma range_present_None: "range_present c \<longleftrightarrow> None \<notin> set (bounds c)"
  by (cases "r_min c"; cases "r_max c"; cases "g_min c"; cases "g_max c";
      cases "b_min c"; cases "b_max c"; simp add: range_present_def bounds_def)

text \<open>
  C6. \<^verbatim>\<open>Column.check\<close> rejects exactly the columns that violate the invariant: a
  \<open>ColorInvl\<close> column lacking one of its six bounds fails with \<open>MissingRange\<close>; one with
  all six bounds and some channel's min above its max fails with \<open>RangeOutOfOrder\<close>; a
  column of another type with any bound set fails with \<open>UnexpectedRange\<close>; every other
  column is returned unchanged. On bounds within 0..255 the constructor is \<open>check\<close>.
\<close>

theorem check_outcomes:
  "(type c = ColorInvl \<and> \<not> range_present c \<longrightarrow> check c = Inl MissingRange) \<and>
   (type c = ColorInvl \<and> range_present c \<and> \<not> range_ordered c \<longrightarrow>
      (\<exists>f. check c = Inl (RangeOutOfOrder f))) \<and>
   (type c \<noteq> ColorInvl \<and> \<not> range_absent c \<longrightarrow> check c = Inl UnexpectedRange) \<and>
   (Column_invariant c \<longrightarrow> check c = Inr c) \<and>
   ((\<exists>e. check c = Inl e) \<longleftrightarrow> \<not> Column_invariant c) \<and>
   (list_all conint_ok (bounds c) \<longrightarrow> Column_init c = check c)"
proof -
  have missing: "check c = Inl MissingRange" if "type c = ColorInvl" "\<not> range_present c"
    using that by (simp add: check_def range_present_None)
  have unexpected: "check c = Inl UnexpectedRange" if "type c \<noteq> ColorInvl" "\<not> range_absent c"
    using that by (simp add: check_def range_absent_def)
  have order: "\<exists>f. check c = Inl (RangeOutOfOrder f)"
    if "type c = ColorInvl" "range_present c" "\<not> range_ordered c"
  proof -
    from that(2) obtain a1 a2 b1 b2 c1 c2
      where bs: "bounds c = [Some a1, Some a2, Some b1, Some b2, Some c1, Some c2]"
      by (auto simp: range_present_iff)
    with that(3) have "a1 > a2 \<or> b1 > b2 \<or> c1 > c2"
      by (auto simp: range_ordered_def bounds_def)
    then show ?thesis
      by (auto simp: check_ColorInvl_present [OF that(1) bs])
  qed
  have good: "check c = Inr c" if "Column_invariant c"
  proof (cases "type c = ColorInvl")
    case True
    with that have p: "range_present c" and o: "range_ordered c"
      by (simp_all add: Column_invariant_def)
    from p obtain a1 a2 b1 b2 c1 c2
      where bs: "bounds c = [Some a1, Some a2, Some b1, Some b2, Some c1, Some c2]"
      by (auto simp: range_present_iff)
    with o have "a1 \<le> a2 \<and> b1 \<le> b2 \<and> c1 \<le> c2"
      by (auto simp: range_ordered_def bounds_def)
    then show ?thesis
      by (auto simp: check_ColorInvl_present [OF True bs])
  next
    case False
    with that show ?thesis
      by (simp add: Column_invariant_def check_def range_absent_def)
  qed
  have bad: "\<exists>e. check c = Inl e" if "\<not> Column_invariant c"
    using that missing unexpected order
    by (cases "type c = ColorInvl") (auto simp: Column_invariant_def)
  have init: "Column_init c = check c" if "list_all conint_ok (bounds c)"
    using that by (simp add: Column_init_def)
  from good have "\<not> Column_invariant c" if "check c = Inl e" for e
    using that by auto
  with missing unexpected order good bad init show ?thesis
    by blast
qed

theorem check_outcomes_witness:
  "check (plain_column ''x'' ColorInvl) = Inl MissingRange \<and>
   (\<exists>f. check (invl_column ''k'' 10 5 0 255 0 255) = Inl (RangeOutOfOrder f)) \<and>
   check ((plain_column ''n'' Integer)\<lparr>g_max := Some 7\<rparr>) = Inl UnexpectedRange \<and>
   check (invl_column ''k'' 0 5 0 255 7 7) = Inr (invl_column ''k'' 0 5 0 255 7 7) \<and>
   Column_init (plain_column ''n'' Integer) = Inr (plain_column ''n'' Integer)"
  using check_outcomes [of "plain_column ''x'' ColorInvl"]
    check_outcomes [of "invl_column ''k'' 10 5 0 255 0 255"]
    check_outcomes [of "(plain_column ''n'' Integer)\<lparr>g_max := Some 7\<rparr>"]
    check_outcomes [of "invl_column ''k'' 0 5 0 255 7 7"]
    check_outcomes [of "plain_column ''n'' Integer"]
  by (simp add: plain_column_def invl_column_def range_present_def range_absent_def
      range_ordered_def Column_invariant_def bounds_def conint_ok_def)

section \<open>Checking a value against a column\<close>

lemma chained_le_Some: "chained_le (Some lo) v (Some hi) = Inr (lo \<le> v \<and> v \<le> hi)"
  by (simp add: chained_le_def split: bool.splits)

lemma py_and_Inr: "py_and (Inr x) (Inr y) = Inr (x \<and> y)"
  by (simp add: py_and_def split: bool.splits)

lemma Column_ok_ColorInvl_bounds:
  assumes "Column_ok c" and "type c = ColorInvl"
  obtains rl rh gl gh bl bh where
    "bounds c = [Some rl, Some rh, Some gl, Some gh, Some bl, Some bh]"
    "rl \<le> rh" "gl \<le> gh" "bl \<le> bh"
proof -
  from assms have chk: "check c = Inr c"
    by (simp add: Column_ok_def Column_init_def split: if_splits)
  with assms(2) have "None \<notin> set (bounds c)"
    by (auto simp: check_def split: if_splits)
  then obtain rl rh gl gh bl bh where
    bs: "bounds c = [Some rl, Some rh, Some gl, Some gh, Some bl, Some bh]"
    by (cases "r_min c"; cases "r_max c"; cases "g_min c"; cases "g_max c";
        cases "b_min c"; cases "b_max c"; simp add: bounds_def)
  with chk assms(2) have "rl \<le> rh \<and> gl \<le> gh \<and> bl \<le> bh"
    by (simp add: check_ColorInvl_present [OF assms(2) bs] split: if_splits)
  with bs that show thesis by blast
qed

text \<open>
  C5. For a validly constructed \<open>ColorInvl\<close> column, with bounds \<open>rl..rh\<close>, \<open>gl..gh\<close>,
  \<open>bl..bh\<close>, \<^verbatim>\<open>check_value\<close> accepts a color exactly when each channel lies within its
  own bounds, both ends included, and rejects every other color and every value that
  is not a color with \<open>TypeMismatch\<close>.
\<close>

theorem check_value_ColorInvl:
  assumes "Column_ok c" and "type c = ColorInvl"
  shows "\<exists>rl rh gl gh bl bh.
     bounds c = [Some rl, Some rh, Some gl, Some gh, Some bl, Some bh] \<and>
     (\<forall>k. check_value c (VColor k) =
        (if rl \<le> r k \<and> r k \<le> rh \<and> gl \<le> g k \<and> g k \<le> gh \<and> bl \<le> b k \<and> b k \<le> bh
         then Inr () else Inl (TypeMismatch c (VColor k)))) \<and>
     (\<forall>v. (\<forall>k. v \<noteq> VColor k) \<longrightarrow> check_value c v = Inl (TypeMismatch c v))"
proof -
  from assms obtain rl rh gl gh bl bh where
    bs: "bounds c = [Some rl, Some rh, Some gl, Some gh, Some bl, Some bh]"
    by (rule Column_ok_ColorInvl_bounds)
  have col: "check_value c (VColor k) =
        (if rl \<le> r k \<and> r k \<le> rh \<and> gl \<le> g k \<and> g k \<le> gh \<and> bl \<le> b k \<and> b k \<le> bh
         then Inr () else Inl (TypeMismatch c (VColor k)))" for k
    using bs assms(2)
    by (simp add: check_value_def chained_le_Some py_and_Inr bounds_def split: bool.splits)
  have other: "check_value c v = Inl (TypeMismatch c v)" if "\<forall>k. v \<noteq> VColor k" for v
    using that assms(2) by (cases v) (simp_all add: check_value_def)
  from bs col other show ?thesis by blast
qed

theorem check_value_ColorInvl_witness:
  "Column_ok (invl_column ''k'' 10 20 0 255 30 30) \<and>
   check_value (invl_column ''k'' 10 20 0 255 30 30) (VColor \<lparr>r = 10, g = 255, b = 30\<rparr>) = Inr () \<and>
   check_value (invl_column ''k'' 10 20 0 255 30 30) (VColor \<lparr>r = 21, g = 0, b = 30\<rparr>) =
     Inl (TypeMismatch (invl_column ''k'' 10 20 0 255 30 30) (VColor \<lparr>r = 21, g = 0, b = 30\<rparr>)) \<and>
   check_value (invl_column ''k'' 10 20 0 255 30 30) (VInt 15) =
     Inl (TypeMismatch (invl_column ''k'' 10 20 0 255 30 30) (VInt 15))"
proof -
  have ok: "Column_ok (invl_column ''k'' 10 20 0 255 30 30)"
    by (simp add: Column_ok_def Column_init_def check_def invl_column_def bounds_def
        conint_ok_def field_min_def field_max_def)
  have ty: "type (invl_column ''k'' 10 20 0 255 30 30) = ColorInvl"
    by (simp add: invl_column_def)
  from check_value_ColorInvl [OF ok ty] ok show ?thesis
    by (auto simp: invl_column_def bounds_def)
qed

section \<open>The type-only view of a column\<close>

text \<open>
  C1. \<^verbatim>\<open>get_type\<close> on a \<open>ColorInvl\<close> column with bounds R 0..10, G 20..30, B 40..50
  returns a column whose green and blue bounds are the red ones, 0..10; it returns the
  same view for a column with the same red bounds and other green and blue bounds, and
  \<^verbatim>\<open>__sub__\<close> does not report the two columns as having different types.
\<close>

theorem get_type_copies_red_bounds:
  "get_type (invl_column ''a'' 0 10 20 30 40 50) [] = Inr (invl_column [] 0 10 0 10 0 10) \<and>
   get_type (invl_column ''a'' 0 10 20 30 40 50) [] =
     get_type (invl_column ''b'' 0 10 100 200 0 255) [] \<and>
   bounds (invl_column ''a'' 0 10 20 30 40 50) \<noteq> bounds (invl_column ''b'' 0 10 100 200 0 255) \<and>
   difference (Table_init 0 ''left'' [invl_column ''a'' 0 10 20 30 40 50])
     (Table_init 1 ''right'' [invl_column ''b'' 0 10 100 200 0 255]) \<noteq> Inl IncompatibleColumnTypes"
  by (simp add: get_type_def Column_init_def check_def invl_column_def bounds_def
      conint_ok_def field_min_def field_max_def difference_def Table_init_def combined_name_def)

section \<open>Adding a row\<close>

lemma check_cells_all_ok:
  assumes "length cs = length xs"
  shows "check_cells cs xs = Inr () \<longleftrightarrow> (\<forall>j<length cs. check_cell (cs ! j) (xs ! j) = Inr ())"
  using assms
proof (induction cs xs rule: list_induct2)
  case Nil
  then show ?case by simp
next
  case (Cons c cs x xs)
  then show ?case
    by (auto simp: less_Suc_eq_0_disj split: sum.splits)
qed

lemma check_cells_first_failure:
  assumes "length cs = length xs" and "i < length cs"
    and "\<forall>j<i. check_cell (cs ! j) (xs ! j) = Inr ()"
    and "check_cell (cs ! i) (xs ! i) = Inl e"
  shows "check_cells cs xs = Inl e"
  using assms
proof (induction cs xs arbitrary: i rule: list_induct2)
  case Nil
  then show ?case by simp
next
  case (Cons c cs x xs)
  show ?case
  proof (cases i)
    case 0
    with Cons.prems show ?thesis by simp
  next
    case (Suc k)
    with Cons.prems have head: "check_cell c x = Inr ()"
      by auto
    from Suc Cons.prems have "check_cells cs xs = Inl e"
      by (intro Cons.IH [of k]) auto
    with head show ?thesis by simp
  qed
qed

lemma validate_cells_map_Cell: "validate_cells (map Cell vs) = Some vs"
  by (induction vs) simp_all

lemma validate_cells_NonFinite: "NonFinite d \<in> set xs \<Longrightarrow> validate_cells xs = None"
  by (induction xs rule: validate_cells.induct) (auto split: option.splits)

lemma validate_cells_Some: "validate_cells xs = Some vs \<Longrightarrow> xs = map Cell vs"
  by (induction xs arbitrary: vs rule: validate_cells.induct) (auto split: option.splits)

text \<open>
  C7, as amended. \<^verbatim>\<open>add_row\<close> fails with \<open>RowLengthMismatch\<close> whenever the number of cells
  is not the number of columns, whatever the cells are. Otherwise the cells are checked
  in column order: the error of the first cell that fails is the outcome and the table
  is left as it was. When every cell passes and one of them is a Decimal that is not
  finite, the constructor of \<^verbatim>\<open>Row\<close> refuses the cells and the table is left as it was.
  When every cell passes and all are validated values, the row returned carries the
  current counter as its id, it is stored under that id, and the counter is incremented.
\<close>

theorem add_row_outcomes:
  "(length xs \<noteq> length (columns t) \<longrightarrow> add_row t xs = (Inl RowLengthMismatch, t)) \<and>
   (length xs = length (columns t) \<and> i < length xs \<and>
    (\<forall>j<i. check_cell (columns t ! j) (xs ! j) = Inr ()) \<and>
    check_cell (columns t ! i) (xs ! i) = Inl e \<longrightarrow>
      add_row t xs = (Inl e, t)) \<and>
   (length xs = length (columns t) \<and>
    (\<forall>j<length xs. check_cell (columns t ! j) (xs ! j) = Inr ()) \<and>
    NonFinite d \<in> set xs \<longrightarrow>
      add_row t xs = (Inl ValidationError, t)) \<and>
   (length vs = length (columns t) \<and>
    (\<forall>j<length vs. check_value (columns t ! j) (vs ! j) = Inr ()) \<longrightarrow>
      add_row t (map Cell vs) =
        (Inr \<lparr>row_id = next_id t, cells = vs\<rparr>,
         t\<lparr>rows := AList.update (next_id t) \<lparr>row_id = next_id t, cells = vs\<rparr> (rows t),
           next_id := next_id t + 1\<rparr>) \<and>
      map_of (rows (snd (add_row t (map Cell vs)))) (next_id t) =
        Some \<lparr>row_id = next_id t, cells = vs\<rparr> \<and>
      next_id (snd (add_row t (map Cell vs))) = next_id t + 1)"
proof -
  have len: "add_row t xs = (Inl RowLengthMismatch, t)" if "length xs \<noteq> length (columns t)"
    using that by (simp add: add_row_def)
  have fail: "add_row t xs = (Inl e, t)"
    if "length xs = length (columns t)" "i < length xs"
      "\<forall>j<i. check_cell (columns t ! j) (xs ! j) = Inr ()"
      "check_cell (columns t ! i) (xs ! i) = Inl e"
  proof -
    from that have "check_cells (columns t) xs = Inl e"
      by (intro check_cells_first_failure [of _ _ i]) auto
    with that(1) show ?thesis by (simp add: add_row_def)
  qed
  have refused: "add_row t xs = (Inl ValidationError, t)"
    if "length xs = length (columns t)"
      "\<forall>j<length xs. check_cell (columns t ! j) (xs ! j) = Inr ()"
      "NonFinite d \<in> set xs"
  proof -
    from that(1,2) have "check_cells (columns t) xs = Inr ()"
      by (simp add: check_cells_all_ok)
    with that(1) validate_cells_NonFinite [OF that(3)] show ?thesis
      by (simp add: add_row_def Row_init_def)
  qed
  have ok: "add_row t (map Cell vs) =
        (Inr \<lparr>row_id = next_id t, cells = vs\<rparr>,
         t\<lparr>rows := AList.update (next_id t) \<lparr>row_id = next_id t, cells = vs\<rparr> (rows t),
           next_id := next_id t + 1\<rparr>)"
    if "length vs = length (columns t)"
      "\<forall>j<length vs. check_value (columns t ! j) (vs ! j) = Inr ()"
  proof -
    from that have "check_cells (columns t) (map Cell vs) = Inr ()"
      by (simp add: check_cells_all_ok)
    with that(1) show ?thesis
      by (simp add: add_row_def Row_init_def validate_cells_map_Cell)
  qed
  from len fail refused ok show ?thesis
    by (auto simp: update_conv')
qed

theorem add_row_outcomes_witness:
  "add_row (Table_init 0 ''t'' int_str_columns) [Cell (VInt 1)] =
     (Inl RowLengthMismatch, Table_init 0 ''t'' int_str_columns) \<and>
   add_row (Table_init 0 ''t'' int_str_columns) [Cell (VInt 1), Cell (VInt 2)] =
     (Inl (TypeMismatch (plain_column ''s'' String) (VInt 2)), Table_init 0 ''t'' int_str_columns) \<and>
   add_row (Table_init 0 ''t'' [plain_column ''n'' Integer, plain_column ''x'' Real])
       [Cell (VInt 1), NonFinite Infinity] =
     (Inl ValidationError, Table_init 0 ''t'' [plain_column ''n'' Integer, plain_column ''x'' Real]) \<and>
   add_row (Table_init 0 ''t'' int_str_columns) [Cell (VInt 1), Cell (VStr ''a'')] =
     (Inr \<lparr>row_id = 0, cells = [VInt 1, VStr ''a'']\<rparr>,
      \<lparr>table_id = 0, table_name = ''t'', columns = int_str_columns,
       rows = [(0, \<lparr>row_id = 0, cells = [VInt 1, VStr ''a'']\<rparr>)], next_id = 1\<rparr>)"
  using add_row_outcomes [of "[Cell (VInt 1)]" "Table_init 0 ''t'' int_str_columns" 0 PyTypeError NaN "[]"]
    add_row_outcomes [of "[Cell (VInt 1), Cell (VInt 2)]" "Table_init 0 ''t'' int_str_columns" 1
      "TypeMismatch (plain_column ''s'' String) (VInt 2)" NaN "[]"]
    add_row_outcomes [of "[Cell (VInt 1), NonFinite Infinity]"
      "Table_init 0 ''t'' [plain_column ''n'' Integer, plain_column ''x'' Real]" 0 PyTypeError
      Infinity "[]"]
    add_row_outcomes [of "[]" "Table_init 0 ''t'' int_str_columns" 0 PyTypeError NaN
      "[VInt 1, VStr ''a'']"]
  by (simp add: Table_init_def int_str_columns_def plain_column_def check_value_def
      less_Suc_eq_0_disj numeral_2_eq_2)

text \<open>
  C7 as stated fails: in a \<open>Real\<close> column the cell NaN passes \<^verbatim>\<open>check_value\<close>, and
  \<^verbatim>\<open>add_row\<close> neither stores nor returns a row.
\<close>

theorem add_row_nonfinite_counterexample:
  "length [NonFinite NaN] = length (columns (Table_init 0 ''t'' [plain_column ''x'' Real])) \<and>
   check_cell (columns (Table_init 0 ''t'' [plain_column ''x'' Real]) ! 0) (NonFinite NaN) = Inr () \<and>
   add_row (Table_init 0 ''t'' [plain_column ''x'' Real]) [NonFinite NaN] =
     (Inl ValidationError, Table_init 0 ''t'' [plain_column ''x'' Real]) \<and>
   rows (Table_init 0 ''t'' [plain_column ''x'' Real]) = []"
  by (simp add: Table_init_def plain_column_def add_row_def Row_init_def)

section \<open>Identifiers\<close>

lemma add_row_Inl: "add_row t xs = (Inl e, t') \<Longrightarrow> t' = t"
  by (auto simp: add_row_def split: if_splits sum.splits)

lemma add_row_Inr:
  assumes "add_row t xs = (Inr row, t')"
  shows "row_id row = next_id t"
    and "t' = t\<lparr>rows := AList.update (next_id t) row (rows t), next_id := Suc (next_id t)\<rparr>"
    and "length (cells row) = length (columns t)"
proof -
  from assms obtain vs where vs: "validate_cells xs = Some vs"
    and row: "row = \<lparr>row_id = next_id t, cells = vs\<rparr>"
    and t': "t' = t\<lparr>rows := AList.update (next_id t) row (rows t), next_id := Suc (next_id t)\<rparr>"
    and len: "length xs = length (columns t)"
    by (auto simp: add_row_def Row_init_def split: if_splits sum.splits option.splits)
  from validate_cells_Some [OF vs] len have "length vs = length (columns t)"
    by auto
  with row t' show "row_id row = next_id t"
    and "t' = t\<lparr>rows := AList.update (next_id t) row (rows t), next_id := Suc (next_id t)\<rparr>"
    and "length (cells row) = length (columns t)"
    by simp_all
qed

lemma next_id_remove_row: "next_id (remove_row t i) = next_id t"
  by (simp add: remove_row_def)

lemma upt_extend_front:
  assumes "ids = [Suc n ..< Suc n + length ids]"
  shows "n # ids = [n ..< n + length (n # ids)]"
proof -
  have "[n ..< Suc n + length ids] = n # [Suc n ..< Suc n + length ids]"
    by (rule upt_conv_Cons) simp
  with assms have "[n ..< Suc n + length ids] = n # ids"
    by (simp only:)
  moreover have "n + length (n # ids) = Suc n + length ids"
    by simp
  ultimately show ?thesis
    by (simp only:)
qed

lemma run_table_calls_ids:
  "fst (run_table_calls t cs) = [next_id t ..< next_id t + length (fst (run_table_calls t cs))] \<and>
   next_id (snd (run_table_calls t cs)) = next_id t + length (fst (run_table_calls t cs))"
proof (induction cs arbitrary: t)
  case Nil
  then show ?case by simp
next
  case (Cons c cs)
  show ?case
  proof (cases c)
    case (AddRow vs)
    obtain res t' where a: "add_row t vs = (res, t')"
      by (cases "add_row t vs")
    show ?thesis
    proof (cases res)
      case (Inl e)
      with a have "t' = t" by (simp add: add_row_Inl)
      with a Inl AddRow Cons.IH [of t] show ?thesis by simp
    next
      case (Inr row)
      with a have row: "row_id row = next_id t" and nx: "next_id t' = Suc (next_id t)"
        using add_row_Inr [of t vs row t'] by simp_all
      define ids where "ids = fst (run_table_calls t' cs)"
      from Cons.IH [of t'] nx
      have ids: "ids = [Suc (next_id t) ..< Suc (next_id t) + length ids]"
        and fin: "next_id (snd (run_table_calls t' cs)) = Suc (next_id t) + length ids"
        by (simp_all add: ids_def)
      from a Inr AddRow row have
        "fst (run_table_calls t (c # cs)) = next_id t # ids"
        and "snd (run_table_calls t (c # cs)) = snd (run_table_calls t' cs)"
        by (simp_all add: ids_def)
      with upt_extend_front [OF ids] fin show ?thesis
        by simp
    qed
  next
    case (RemoveRow i)
    with Cons.IH [of "remove_row t i"] show ?thesis
      by (simp add: next_id_remove_row)
  qed
qed

lemma run_database_calls_ids:
  "fst (run_database_calls d cs) =
     [db_next_id d ..< db_next_id d + length (fst (run_database_calls d cs))]"
proof (induction cs arbitrary: d)
  case Nil
  then show ?case by simp
next
  case (Cons c cs)
  show ?case
  proof (cases c)
    case (AddTable n cols)
    obtain table d' where a: "add_table d n cols = (table, d')"
      by (cases "add_table d n cols")
    then have tid: "table_id table = db_next_id d" and nx: "db_next_id d' = Suc (db_next_id d)"
      by (auto simp: add_table_def Let_def Table_init_def)
    define ids where "ids = fst (run_database_calls d' cs)"
    from Cons.IH [of d'] nx have ids: "ids = [Suc (db_next_id d) ..< Suc (db_next_id d) + length ids]"
      by (simp add: ids_def)
    from a AddTable tid have "fst (run_database_calls d (c # cs)) = db_next_id d # ids"
      by (simp add: ids_def)
    with upt_extend_front [OF ids] show ?thesis
      by simp
  next
    case (RemoveTable i)
    have "db_next_id (remove_table d i) = db_next_id d"
      by (simp add: remove_table_def)
    with RemoveTable Cons.IH [of "remove_table d i"] show ?thesis
      by simp
  qed
qed

lemma update_fresh: "k \<notin> fst ` set al \<Longrightarrow> AList.update k v al = al @ [(k, v)]"
  by (induction al) auto

lemma Table_ok_init: "Table_ok (Table_init i n cs)"
  by (simp add: Table_ok_def Table_init_def)

lemma Table_ok_fresh: "Table_ok t \<Longrightarrow> next_id t \<notin> fst ` set (rows t)"
  by (auto simp: Table_ok_def list_all_iff)

lemma Table_ok_add_row:
  assumes "Table_ok t"
  shows "Table_ok (snd (add_row t vs))"
proof -
  obtain res t' where a: "add_row t vs = (res, t')"
    by (cases "add_row t vs")
  show ?thesis
  proof (cases res)
    case (Inl e)
    with a have "t' = t" by (simp add: add_row_Inl)
    with a assms show ?thesis by simp
  next
    case (Inr row)
    with a have row: "row_id row = next_id t"
      and t': "t' = t\<lparr>rows := AList.update (next_id t) row (rows t), next_id := Suc (next_id t)\<rparr>"
      and len: "length (cells row) = length (columns t)"
      using add_row_Inr [of t vs row t'] by simp_all
    from assms t' have rws: "rows t' = rows t @ [(next_id t, row)]"
      by (simp add: update_fresh Table_ok_fresh)
    from assms have "list_all (\<lambda>p. row_id (snd p) = fst p \<and> fst p < Suc (next_id t) \<and>
        length (cells (snd p)) = length (columns t)) (rows t)"
      by (auto simp: Table_ok_def list_all_iff)
    with assms len rws row have "Table_ok t'"
      using Table_ok_fresh [OF assms]
      by (simp add: Table_ok_def t')
    with a show ?thesis by simp
  qed
qed

lemma Table_ok_remove_row:
  assumes "Table_ok t"
  shows "Table_ok (remove_row t i)"
proof -
  have "set (AList.delete i (rows t)) \<subseteq> set (rows t)"
    by (auto simp: AList.delete_eq)
  with assms show ?thesis
    by (auto simp: Table_ok_def remove_row_def list_all_iff distinct_delete)
qed

lemma Table_ok_run: "Table_ok t \<Longrightarrow> Table_ok (snd (run_table_calls t cs))"
proof (induction cs arbitrary: t)
  case Nil
  then show ?case by simp
next
  case (Cons c cs)
  show ?case
  proof (cases c)
    case (AddRow vs)
    from Cons.prems have ok: "Table_ok (snd (add_row t vs))"
      by (rule Table_ok_add_row)
    obtain res t' where a: "add_row t vs = (res, t')"
      by (cases "add_row t vs")
    with ok Cons.IH [of t'] AddRow show ?thesis
      by (cases res) simp_all
  next
    case (RemoveRow i)
    with Cons.IH [OF Table_ok_remove_row [OF Cons.prems] ] show ?thesis by simp
  qed
qed

text \<open>
  C8. Whatever calls of \<^verbatim>\<open>add_row\<close> and \<^verbatim>\<open>remove_row\<close> are made on a new table, the ids
  of the rows added are 0, 1, 2, ... in call order, so no id is handed out twice, also
  after a removal; the counter equals their number and every stored row has one of
  them. Table ids of a new database behave the same under \<^verbatim>\<open>add_table\<close> and
  \<^verbatim>\<open>remove_table\<close>. Adding three rows, removing row 1 and adding a fourth hands out
  0, 1, 2, 3 and leaves rows 0, 2, 3.
\<close>

theorem ids_never_reused:
  "fst (run_table_calls (Table_init i n cols) cs) =
     [0 ..< length (fst (run_table_calls (Table_init i n cols) cs))] \<and>
   next_id (snd (run_table_calls (Table_init i n cols) cs)) =
     length (fst (run_table_calls (Table_init i n cols) cs)) \<and>
   fst ` set (rows (snd (run_table_calls (Table_init i n cols) cs))) \<subseteq>
     set (fst (run_table_calls (Table_init i n cols) cs)) \<and>
   fst (run_database_calls (Database_init dn) ds) =
     [0 ..< length (fst (run_database_calls (Database_init dn) ds))] \<and>
   fst (run_table_calls (Table_init 0 ''t'' [plain_column ''n'' Integer])
          [AddRow [Cell (VInt 10)], AddRow [Cell (VInt 20)], AddRow [Cell (VInt 30)], RemoveRow 1,
           AddRow [Cell (VInt 40)] ]) =
     [0, 1, 2, 3] \<and>
   map fst (rows (snd (run_table_calls (Table_init 0 ''t'' [plain_column ''n'' Integer])
          [AddRow [Cell (VInt 10)], AddRow [Cell (VInt 20)], AddRow [Cell (VInt 30)], RemoveRow 1,
           AddRow [Cell (VInt 40)] ]))) =
     [0, 2, 3]"
proof -
  let ?t = "Table_init i n cols"
  have z: "next_id ?t = 0" by (simp add: Table_init_def)
  from run_table_calls_ids [of ?t cs] z
  have ids: "fst (run_table_calls ?t cs) = [0 ..< length (fst (run_table_calls ?t cs))]"
    and fin: "next_id (snd (run_table_calls ?t cs)) = length (fst (run_table_calls ?t cs))"
    by simp_all
  have "Table_ok (snd (run_table_calls ?t cs))"
    by (rule Table_ok_run) (rule Table_ok_init)
  then have "fst ` set (rows (snd (run_table_calls ?t cs))) \<subseteq> {..<next_id (snd (run_table_calls ?t cs))}"
    by (auto simp: Table_ok_def list_all_iff)
  also have "\<dots> = set [0 ..< length (fst (run_table_calls ?t cs))]"
    using fin by auto
  also have "\<dots> = set (fst (run_table_calls ?t cs))"
    using ids by simp
  finally have keys: "fst ` set (rows (snd (run_table_calls ?t cs))) \<subseteq> set (fst (run_table_calls ?t cs))" .
  have db: "fst (run_database_calls (Database_init dn) ds) =
     [0 ..< length (fst (run_database_calls (Database_init dn) ds))]"
    using run_database_calls_ids [of "Database_init dn" ds] by (simp add: Database_init_def)
  have sc1: "fst (run_table_calls (Table_init 0 ''t'' [plain_column ''n'' Integer])
          [AddRow [Cell (VInt 10)], AddRow [Cell (VInt 20)], AddRow [Cell (VInt 30)], RemoveRow 1,
           AddRow [Cell (VInt 40)] ]) =
     [0, 1, 2, 3]"
    by (simp add: Table_init_def plain_column_def add_row_def Row_init_def check_value_def
        remove_row_def)
  have sc2: "map fst (rows (snd (run_table_calls (Table_init 0 ''t'' [plain_column ''n'' Integer])
          [AddRow [Cell (VInt 10)], AddRow [Cell (VInt 20)], AddRow [Cell (VInt 30)], RemoveRow 1,
           AddRow [Cell (VInt 40)] ]))) =
     [0, 2, 3]"
    by (simp add: Table_init_def plain_column_def add_row_def Row_init_def check_value_def
        remove_row_def)
  from ids fin keys db sc1 sc2 show ?thesis by (intro conjI)
qed

section \<open>Rows of a table difference\<close>

lemma difference_rows_filter:
  assumes "distinct (map fst items)" and "fst ` set items \<inter> fst ` set acc = {}"
  shows "difference_rows right items acc =
           acc @ filter (\<lambda>p. \<not> contains_row right (snd p)) items"
  using assms
proof (induction items arbitrary: acc)
  case Nil
  then show ?case by simp
next
  case (Cons p items)
  obtain i row where p: "p = (i, row)" by (cases p)
  from Cons.prems p have fresh: "i \<notin> fst ` set acc" and d: "distinct (map fst items)"
    and notin: "i \<notin> fst ` set items"
    by auto
  show ?case
  proof (cases "contains_row right row")
    case True
    from Cons.prems have "fst ` set items \<inter> fst ` set acc = {}" by auto
    with True p Cons.IH [OF d, of acc] show ?thesis by simp
  next
    case False
    from Cons.prems notin have "fst ` set items \<inter> fst ` set (acc @ [(i, row)]) = {}"
      by auto
    with False p fresh Cons.IH [OF d, of "acc @ [(i, row)]"] show ?thesis
      by (simp add: update_fresh)
  qed
qed

lemma difference_Inr_rows:
  assumes "difference left right = Inr d"
  shows "diff_rows d = difference_rows right (rows left) []"
  using assms by (auto simp: difference_def split: if_splits sum.splits bool.splits)

lemma cells_eq_iff:
  "cells_eq xs ys \<longleftrightarrow> length ys = length xs \<and> (\<forall>i<length xs. value_eq (xs ! i) (ys ! i))"
  by (auto simp: cells_eq_def list_all2_conv_all_nth)

lemma contains_row_iff:
  "contains_row right row \<longleftrightarrow>
     (\<exists>p \<in> set (rows right). length (cells (snd p)) = length (cells row) \<and>
        (\<forall>i<length (cells row). value_eq (cells row ! i) (cells (snd p) ! i)))"
  by (simp add: contains_row_def list_ex_iff cells_eq_iff)

lemma decimal_eq_refl: "decimal_eq d d"
  by (cases d) simp

lemma value_eq_refl: "value_eq v v"
  by (cases v) (simp_all add: decimal_eq_refl)

text \<open>
  C2, as amended. For two tables on which \<^verbatim>\<open>__sub__\<close> succeeds, the left row ids being
  unique, the rows of the difference are the rows of left, in order, for which right
  holds no row whose cell sequence has the same length and is cell by cell equal under
  Python's \<^verbatim>\<open>==\<close>. Each left row is judged alone, so duplicates are all dropped or all
  kept. Two cells are equal under \<^verbatim>\<open>==\<close> when they are identical, or when both are
  numbers (int or Decimal) of the same numeric value.
\<close>

theorem difference_rows_value_equality:
  assumes "distinct (map fst (rows left))" and "difference left right = Inr d"
  shows "diff_rows d = filter (\<lambda>p. \<not> contains_row right (snd p)) (rows left) \<and>
    (\<forall>row. contains_row right row \<longleftrightarrow>
       (\<exists>p \<in> set (rows right). length (cells (snd p)) = length (cells row) \<and>
          (\<forall>i<length (cells row). value_eq (cells row ! i) (cells (snd p) ! i)))) \<and>
    (\<forall>v w. value_eq v w \<longleftrightarrow>
       v = w \<or>
       (\<exists>i j. v = VInt i \<and> w = VDecimal j \<and> decimal_eq (Dec i 0) j) \<or>
       (\<exists>i j. v = VDecimal i \<and> w = VInt j \<and> decimal_eq i (Dec j 0)) \<or>
       (\<exists>i j. v = VDecimal i \<and> w = VDecimal j \<and> decimal_eq i j))"
proof -
  from assms have "diff_rows d = filter (\<lambda>p. \<not> contains_row right (snd p)) (rows left)"
    by (simp add: difference_Inr_rows difference_rows_filter)
  moreover have "contains_row right row \<longleftrightarrow>
       (\<exists>p \<in> set (rows right). length (cells (snd p)) = length (cells row) \<and>
          (\<forall>i<length (cells row). value_eq (cells row ! i) (cells (snd p) ! i)))" for row
    by (rule contains_row_iff)
  moreover have "value_eq v w \<longleftrightarrow>
       v = w \<or>
       (\<exists>i j. v = VInt i \<and> w = VDecimal j \<and> decimal_eq (Dec i 0) j) \<or>
       (\<exists>i j. v = VDecimal i \<and> w = VInt j \<and> decimal_eq i (Dec j 0)) \<or>
       (\<exists>i j. v = VDecimal i \<and> w = VDecimal j \<and> decimal_eq i j)" for v w
    by (cases v; cases w) (auto simp: decimal_eq_refl)
  ultimately show ?thesis by blast
qed

lemma dup_tables:
  "dup_left = \<lparr>table_id = 0, table_name = ''left'', columns = int_str_columns,
     rows = [(0, \<lparr>row_id = 0, cells = [VInt 1, VStr ''a'']\<rparr>),
             (1, \<lparr>row_id = 1, cells = [VInt 2, VStr ''b'']\<rparr>),
             (2, \<lparr>row_id = 2, cells = [VInt 1, VStr ''a'']\<rparr>)], next_id = 3\<rparr>"
  "dup_right = \<lparr>table_id = 1, table_name = ''right'', columns = int_str_columns,
     rows = [(0, \<lparr>row_id = 0, cells = [VInt 1, VStr ''a'']\<rparr>)], next_id = 1\<rparr>"
  by (simp_all add: dup_left_def dup_right_def table_of_def Table_init_def add_row_def Row_init_def
      int_str_columns_def plain_column_def check_value_def)

lemma get_type_plain: "get_type (plain_column n ty) m = (if ty = ColorInvl then Inl MissingRange else Inr (plain_column m ty))"
  by (simp add: get_type_def plain_column_def Column_init_def check_def bounds_def conint_ok_def)

lemma difference_cells_dup:
  "difference_cells dup_left dup_right = Inr [ [VInt 2, VStr ''b''] ]"
  by (simp add: dup_tables difference_cells_def difference_def int_str_columns_def
      get_type_plain combined_name_def contains_row_def cells_eq_def)

lemma dup_tables_shape:
  "map type (columns dup_left) = [Integer, String]"
  "map type (columns dup_right) = [Integer, String]"
  "map (cells \<circ> snd) (rows dup_left) =
     [ [VInt 1, VStr ''a''], [VInt 2, VStr ''b''], [VInt 1, VStr ''a''] ]"
  "map (cells \<circ> snd) (rows dup_right) = [ [VInt 1, VStr ''a''] ]"
  by (simp_all add: dup_tables int_str_columns_def plain_column_def)

text \<open>
  C3, as amended. With left rows [1,"a"], [2,"b"], [1,"a"] and right row [1,"a"] over
  columns (Integer, String), the rows of the difference are [2,"b"] alone.
\<close>

theorem difference_duplicate_example:
  "map type (columns dup_left) = [Integer, String] \<and>
   map type (columns dup_right) = [Integer, String] \<and>
   map (cells \<circ> snd) (rows dup_left) =
     [ [VInt 1, VStr ''a''], [VInt 2, VStr ''b''], [VInt 1, VStr ''a''] ] \<and>
   map (cells \<circ> snd) (rows dup_right) = [ [VInt 1, VStr ''a''] ] \<and>
   difference_cells dup_left dup_right = Inr [ [VInt 2, VStr ''b''] ]"
  by (simp add: dup_tables_shape difference_cells_dup)

text \<open>C3 as stated fails: the result is not [2,"b"], [1,"a"].\<close>

theorem difference_duplicate_counterexample:
  "map type (columns dup_left) = [Integer, String] \<and>
   map type (columns dup_right) = [Integer, String] \<and>
   map (cells \<circ> snd) (rows dup_left) =
     [ [VInt 1, VStr ''a''], [VInt 2, VStr ''b''], [VInt 1, VStr ''a''] ] \<and>
   map (cells \<circ> snd) (rows dup_right) = [ [VInt 1, VStr ''a''] ] \<and>
   difference_cells dup_left dup_right \<noteq> Inr [ [VInt 2, VStr ''b''], [VInt 1, VStr ''a''] ]"
  by (simp add: dup_tables_shape difference_cells_dup)

lemma real_tables:
  "real_left = \<lparr>table_id = 0, table_name = ''left'', columns = [plain_column ''x'' Real],
     rows = [(0, \<lparr>row_id = 0, cells = [VInt 1]\<rparr>)], next_id = 1\<rparr>"
  "real_right = \<lparr>table_id = 1, table_name = ''right'', columns = [plain_column ''x'' Real],
     rows = [(0, \<lparr>row_id = 0, cells = [VDecimal (Dec 10 (- 1))]\<rparr>)], next_id = 1\<rparr>"
  by (simp_all add: real_left_def real_right_def table_of_def Table_init_def add_row_def Row_init_def
      plain_column_def check_value_def)

text \<open>
  C2 as stated fails: in a \<open>Real\<close> column the left row [1] (an int) has no identical row
  in right, whose only row is [1.0] (a Decimal), and yet it is dropped.
\<close>

theorem difference_typed_equality_counterexample:
  "map (cells \<circ> snd) (rows real_left) = [ [VInt 1] ] \<and>
   map (cells \<circ> snd) (rows real_right) = [ [VDecimal (Dec 10 (- 1))] ] \<and>
   [VInt 1] \<notin> set (map (cells \<circ> snd) (rows real_right)) \<and>
   difference_cells real_left real_right = Inr []"
  by (simp add: real_tables difference_cells_def difference_def
      get_type_plain combined_name_def contains_row_def cells_eq_def)

theorem difference_rows_value_equality_witness:
  "distinct (map fst (rows dup_left)) \<and>
   difference dup_left dup_right = Inr (projr (difference dup_left dup_right)) \<and>
   diff_rows (projr (difference dup_left dup_right)) = [(1, \<lparr>row_id = 1, cells = [VInt 2, VStr ''b'']\<rparr>)]"
proof -
  have d: "distinct (map fst (rows dup_left))"
    by (simp add: dup_tables)
  have e: "difference dup_left dup_right = Inr (projr (difference dup_left dup_right))"
    by (simp add: dup_tables difference_def int_str_columns_def get_type_plain combined_name_def)
  from difference_rows_value_equality [OF d e] d e show ?thesis
    by (simp add: dup_tables contains_row_def cells_eq_def)
qed

section \<open>Outcomes of a table difference\<close>

lemma Column_ok_conint: "Column_ok c \<Longrightarrow> list_all conint_ok (bounds c)"
  by (simp add: Column_ok_def Column_init_def split: if_splits)

lemma Column_ok_check: "Column_ok c \<Longrightarrow> check c = Inr c"
  by (simp add: Column_ok_def Column_init_def split: if_splits)

lemma get_type_ok:
  assumes "Column_ok c"
  shows "get_type c n =
     Inr \<lparr>name = n, type = type c, r_min = r_min c, r_max = r_max c,
          g_min = r_min c, g_max = r_max c, b_min = r_min c, b_max = r_max c\<rparr>"
proof (cases "type c = ColorInvl")
  case True
  let ?s = "\<lparr>name = n, type = type c, r_min = r_min c, r_max = r_max c,
          g_min = r_min c, g_max = r_max c, b_min = r_min c, b_max = r_max c\<rparr>"
  from assms True obtain rl rh gl gh bl bh where
    bs: "bounds c = [Some rl, Some rh, Some gl, Some gh, Some bl, Some bh]" and le: "rl \<le> rh"
    by (rule Column_ok_ColorInvl_bounds)
  from bs have bs': "bounds ?s = [Some rl, Some rh, Some rl, Some rh, Some rl, Some rh]"
    by (simp add: bounds_def)
  from Column_ok_conint [OF assms] bs have "conint_ok (Some rl)" "conint_ok (Some rh)"
    by simp_all
  with bs' have con: "list_all conint_ok (bounds ?s)"
    by simp
  from True have "type ?s = ColorInvl" by simp
  from check_ColorInvl_present [OF this bs'] le have "check ?s = Inr ?s"
    by simp
  with con show ?thesis
    by (simp add: get_type_def Column_init_def)
next
  case False
  with Column_ok_check [OF assms] have "list_all (\<lambda>x. x = None) (bounds c)"
    by (simp add: check_def split: if_splits)
  with False show ?thesis
    by (simp add: get_type_def Column_init_def check_def bounds_def conint_ok_def)
qed

lemma any_type_differs_ok:
  assumes "length ls = length rs" and "list_all Column_ok ls" and "list_all Column_ok rs"
  shows "any_type_differs (zip ls rs) =
           Inr (\<exists>i<length ls. get_type (ls ! i) [] \<noteq> get_type (rs ! i) [])"
  using assms
proof (induction ls rs rule: list_induct2)
  case Nil
  then show ?case by simp
next
  case (Cons l ls r' rs)
  from Cons.prems have l: "Column_ok l" and r: "Column_ok r'" by simp_all
  from Cons have IH: "any_type_differs (zip ls rs) =
           Inr (\<exists>i<length ls. get_type (ls ! i) [] \<noteq> get_type (rs ! i) [])"
    by simp
  have split: "(\<exists>i<Suc (length ls). P i) \<longleftrightarrow> P 0 \<or> (\<exists>i<length ls. P (Suc i))" for P
    by (auto simp: less_Suc_eq_0_disj)
  show ?case
    by (simp add: get_type_ok [OF l] get_type_ok [OF r] IH split)
qed

lemma combine_columns_ok:
  assumes "length ls = length rs" and "list_all Column_ok ls"
  shows "\<exists>cs. combine_columns (zip ls rs) = Inr cs \<and> length cs = length ls \<and>
           (\<forall>i<length ls. get_type (ls ! i) (combined_name (ls ! i) (rs ! i)) = Inr (cs ! i))"
  using assms
proof (induction ls rs rule: list_induct2)
  case Nil
  then show ?case by simp
next
  case (Cons l ls r' rs)
  from Cons.prems have l: "Column_ok l" by simp
  from Cons obtain cs where cs: "combine_columns (zip ls rs) = Inr cs" "length cs = length ls"
    "\<forall>i<length ls. get_type (ls ! i) (combined_name (ls ! i) (rs ! i)) = Inr (cs ! i)"
    by auto
  obtain c where c: "get_type l (combined_name l r') = Inr c"
    using get_type_ok [OF l] by blast
  with cs have "combine_columns (zip (l # ls) (r' # rs)) = Inr (c # cs)"
    by simp
  moreover from cs c have "\<forall>i<length (l # ls).
      get_type ((l # ls) ! i) (combined_name ((l # ls) ! i) ((r' # rs) ! i)) = Inr ((c # cs) ! i)"
    by (auto simp: less_Suc_eq_0_disj)
  ultimately show ?case using cs(2) by auto
qed

lemma get_type_rename:
  assumes "Column_ok c" and "get_type c n = Inr s"
  shows "name s = n" and "get_type c m = Inr (s\<lparr>name := m\<rparr>)"
  using assms by (simp_all add: get_type_ok) auto

text \<open>
  What \<^verbatim>\<open>__sub__\<close> does, in terms of \<^verbatim>\<open>get_type\<close>: it fails with
  \<open>IncompatibleColumnCount\<close> when the two tables differ in their number of columns.
  Otherwise, on validly constructed columns, it fails with \<open>IncompatibleColumnTypes\<close>
  when at some position the views returned by \<^verbatim>\<open>get_type()\<close> differ. Otherwise it
  succeeds, with one result column per position: its name is the shared name when both
  names agree and \<^verbatim>\<open>'<left>' / '<right>'\<close> otherwise, and under the empty name it is
  the view that \<^verbatim>\<open>get_type()\<close> returns for both columns of the pair.
\<close>

lemma difference_via_get_type:
  "(length (columns left) \<noteq> length (columns right) \<longrightarrow>
      difference left right = Inl IncompatibleColumnCount) \<and>
   (length (columns left) = length (columns right) \<and>
    list_all Column_ok (columns left) \<and> list_all Column_ok (columns right) \<and>
    (\<exists>i<length (columns left). get_type (columns left ! i) [] \<noteq> get_type (columns right ! i) []) \<longrightarrow>
      difference left right = Inl IncompatibleColumnTypes) \<and>
   (length (columns left) = length (columns right) \<and>
    list_all Column_ok (columns left) \<and> list_all Column_ok (columns right) \<and>
    (\<forall>i<length (columns left). get_type (columns left ! i) [] = get_type (columns right ! i) []) \<longrightarrow>
      (\<exists>d. difference left right = Inr d \<and> left_table d = left \<and> right_table d = right \<and>
         length (diff_columns d) = length (columns left) \<and>
         (\<forall>i<length (columns left).
            name (diff_columns d ! i) =
              (if name (columns left ! i) = name (columns right ! i) then name (columns left ! i)
               else [CHR 0x27] @ name (columns left ! i) @ [CHR 0x27] @ '' / '' @
                    [CHR 0x27] @ name (columns right ! i) @ [CHR 0x27]) \<and>
            get_type (columns left ! i) [] = Inr ((diff_columns d ! i)\<lparr>name := []\<rparr>) \<and>
            get_type (columns right ! i) [] = Inr ((diff_columns d ! i)\<lparr>name := []\<rparr>))))"
proof -
  have count: "difference left right = Inl IncompatibleColumnCount"
    if "length (columns left) \<noteq> length (columns right)"
    using that by (simp add: difference_def)
  have types: "difference left right = Inl IncompatibleColumnTypes"
    if "length (columns left) = length (columns right)"
      "list_all Column_ok (columns left)" "list_all Column_ok (columns right)"
      "\<exists>i<length (columns left). get_type (columns left ! i) [] \<noteq> get_type (columns right ! i) []"
    using that by (simp add: difference_def any_type_differs_ok)
  have good: "\<exists>d. difference left right = Inr d \<and> left_table d = left \<and> right_table d = right \<and>
         length (diff_columns d) = length (columns left) \<and>
         (\<forall>i<length (columns left).
            name (diff_columns d ! i) =
              (if name (columns left ! i) = name (columns right ! i) then name (columns left ! i)
               else [CHR 0x27] @ name (columns left ! i) @ [CHR 0x27] @ '' / '' @
                    [CHR 0x27] @ name (columns right ! i) @ [CHR 0x27]) \<and>
            get_type (columns left ! i) [] = Inr ((diff_columns d ! i)\<lparr>name := []\<rparr>) \<and>
            get_type (columns right ! i) [] = Inr ((diff_columns d ! i)\<lparr>name := []\<rparr>))"
    if len: "length (columns left) = length (columns right)"
      and okl: "list_all Column_ok (columns left)" and okr: "list_all Column_ok (columns right)"
      and same: "\<forall>i<length (columns left). get_type (columns left ! i) [] = get_type (columns right ! i) []"
  proof -
    from combine_columns_ok [OF len okl] obtain cs where
      cs: "combine_columns (zip (columns left) (columns right)) = Inr cs"
        "length cs = length (columns left)"
        "\<forall>i<length (columns left).
           get_type (columns left ! i) (combined_name (columns left ! i) (columns right ! i)) = Inr (cs ! i)"
      by blast
    let ?d = "\<lparr>left_table = left, right_table = right, diff_columns = cs,
                diff_rows = difference_rows right (rows left) []\<rparr>"
    from same have "\<not> (\<exists>i<length (columns left).
        get_type (columns left ! i) [] \<noteq> get_type (columns right ! i) [])"
      by simp
    with any_type_differs_ok [OF len okl okr]
    have "any_type_differs (zip (columns left) (columns right)) = Inr False"
      by (simp only:)
    with len cs(1) have d: "difference left right = Inr ?d"
      by (simp add: difference_def)
    have "name (cs ! i) =
              (if name (columns left ! i) = name (columns right ! i) then name (columns left ! i)
               else [CHR 0x27] @ name (columns left ! i) @ [CHR 0x27] @ '' / '' @
                    [CHR 0x27] @ name (columns right ! i) @ [CHR 0x27]) \<and>
            get_type (columns left ! i) [] = Inr ((cs ! i)\<lparr>name := []\<rparr>) \<and>
            get_type (columns right ! i) [] = Inr ((cs ! i)\<lparr>name := []\<rparr>)"
      if i: "i < length (columns left)" for i
    proof -
      from okl i have ok: "Column_ok (columns left ! i)"
        by (simp add: list_all_length)
      from cs(3) i have g: "get_type (columns left ! i)
          (combined_name (columns left ! i) (columns right ! i)) = Inr (cs ! i)"
        by simp
      from same i have eq: "get_type (columns right ! i) [] = get_type (columns left ! i) []"
        by simp
      from get_type_rename [OF ok g] show ?thesis
        by (simp add: combined_name_def eq)
    qed
    with d cs(2) show ?thesis by auto
  qed
  from count types good show ?thesis by blast
qed

lemma Column_ok_plain: "ty \<noteq> ColorInvl \<Longrightarrow> Column_ok (plain_column n ty)"
  by (simp add: Column_ok_def Column_init_def check_def plain_column_def bounds_def conint_ok_def)

text \<open>
  C4. Take two tables of one validly constructed \<open>ColorInvl\<close> column each, with R 0..10
  on both sides, G 20..30 and B 40..50 on the left, G 100..200 and B 0..255 on the
  right. The type signatures of the two columns differ, yet \<^verbatim>\<open>__sub__\<close> does not fail
  with \<open>IncompatibleColumnTypes\<close>: it succeeds, and its result column has the bounds
  0..10 on all three channels, which is the type signature of neither column.
\<close>

theorem difference_accepts_unequal_signatures:
  "Column_ok (invl_column ''k'' 0 10 20 30 40 50) \<and>
   Column_ok (invl_column ''k'' 0 10 100 200 0 255) \<and>
   type_signature (invl_column ''k'' 0 10 20 30 40 50) \<noteq>
     type_signature (invl_column ''k'' 0 10 100 200 0 255) \<and>
   difference (Table_init 0 ''left'' [invl_column ''k'' 0 10 20 30 40 50])
       (Table_init 1 ''right'' [invl_column ''k'' 0 10 100 200 0 255]) =
     Inr \<lparr>left_table = Table_init 0 ''left'' [invl_column ''k'' 0 10 20 30 40 50],
          right_table = Table_init 1 ''right'' [invl_column ''k'' 0 10 100 200 0 255],
          diff_columns = [invl_column ''k'' 0 10 0 10 0 10], diff_rows = []\<rparr> \<and>
   type_signature (invl_column ''k'' 0 10 0 10 0 10) \<noteq>
     type_signature (invl_column ''k'' 0 10 20 30 40 50) \<and>
   type_signature (invl_column ''k'' 0 10 0 10 0 10) \<noteq>
     type_signature (invl_column ''k'' 0 10 100 200 0 255)"
  by (simp add: Column_ok_def get_type_def Column_init_def check_def invl_column_def bounds_def
      conint_ok_def field_min_def field_max_def difference_def Table_init_def combined_name_def
      type_signature_def)

section \<open>Tables without columns\<close>

lemma contains_row_empty_cells:
  assumes "list_all (\<lambda>p. cells (snd p) = []) (rows right)" and "cells row = []"
  shows "contains_row right row \<longleftrightarrow> rows right \<noteq> []"
  using assms by (cases "rows right") (auto simp: contains_row_def cells_eq_def list_ex_iff list_all_iff)

text \<open>
  C10. For two well-formed tables without columns, every row has the empty cell
  sequence, \<^verbatim>\<open>__sub__\<close> succeeds, and its rows are none when right has a row and all the
  rows of left when right has none.
\<close>

theorem difference_zero_columns:
  assumes "columns left = []" and "columns right = []"
    and "Table_ok left" and "Table_ok right"
  shows "list_all (\<lambda>p. cells (snd p) = []) (rows left @ rows right) \<and>
    (\<exists>d. difference left right = Inr d \<and>
         diff_rows d = (if rows right = [] then rows left else []))"
proof -
  from assms(1,3) have el: "list_all (\<lambda>p. cells (snd p) = []) (rows left)"
    by (auto simp: Table_ok_def list_all_iff)
  from assms(2,4) have er: "list_all (\<lambda>p. cells (snd p) = []) (rows right)"
    by (auto simp: Table_ok_def list_all_iff)
  from assms(3) have dist: "distinct (map fst (rows left))"
    by (simp add: Table_ok_def)
  let ?d = "\<lparr>left_table = left, right_table = right, diff_columns = [],
              diff_rows = difference_rows right (rows left) []\<rparr>"
  from assms(1,2) have d: "difference left right = Inr ?d"
    by (simp add: difference_def)
  have "filter (\<lambda>p. \<not> contains_row right (snd p)) (rows left) =
      (if rows right = [] then rows left else [])"
    using el contains_row_empty_cells [OF er]
    by (auto simp: list_all_iff filter_empty_conv filter_id_conv)
  with dist have "diff_rows ?d = (if rows right = [] then rows left else [])"
    by (simp add: difference_rows_filter)
  with d el er show ?thesis by auto
qed

theorem difference_zero_columns_witness:
  "columns (table_of 0 ''left'' [] [ [], [] ]) = [] \<and>
   rows (table_of 1 ''right'' [] [ [] ]) \<noteq> [] \<and>
   (\<exists>d. difference (table_of 0 ''left'' [] [ [], [] ]) (table_of 1 ''right'' [] [ [] ]) = Inr d \<and>
        diff_rows d = []) \<and>
   (\<exists>d. difference (table_of 0 ''left'' [] [ [], [] ]) (Table_init 1 ''right'' []) = Inr d \<and>
        diff_rows d = [(0, \<lparr>row_id = 0, cells = []\<rparr>), (1, \<lparr>row_id = 1, cells = []\<rparr>)])"
proof -
  have l: "table_of 0 ''left'' [] [ [], [] ] =
      \<lparr>table_id = 0, table_name = ''left'', columns = [],
       rows = [(0, \<lparr>row_id = 0, cells = []\<rparr>), (1, \<lparr>row_id = 1, cells = []\<rparr>)], next_id = 2\<rparr>"
    by (simp add: table_of_def Table_init_def add_row_def Row_init_def)
  have r: "table_of 1 ''right'' [] [ [] ] =
      \<lparr>table_id = 1, table_name = ''right'', columns = [],
       rows = [(0, \<lparr>row_id = 0, cells = []\<rparr>)], next_id = 1\<rparr>"
    by (simp add: table_of_def Table_init_def add_row_def Row_init_def)
  have okl: "Table_ok (table_of 0 ''left'' [] [ [], [] ])"
    unfolding l by (simp add: Table_ok_def)
  have okr: "Table_ok (table_of 1 ''right'' [] [ [] ])"
    unfolding r by (simp add: Table_ok_def)
  have cl: "columns (table_of 0 ''left'' [] [ [], [] ]) = []" unfolding l by simp
  have cr: "columns (table_of 1 ''right'' [] [ [] ]) = []" unfolding r by simp
  have ce: "columns (Table_init 1 ''right'' []) = []" by (simp add: Table_init_def)
  from difference_zero_columns [OF cl cr okl okr]
    difference_zero_columns [OF cl ce okl Table_ok_init] cl
  show ?thesis
    unfolding l r by (simp add: Table_init_def)
qed

section \<open>Updating a cell\<close>

lemma value_cond_ok:
  assumes "Column_ok c"
  shows "\<exists>ok. value_cond c v = Inr ok"
proof (cases "type c = ColorInvl")
  case True
  with assms obtain rl rh gl gh bl bh where
    "bounds c = [Some rl, Some rh, Some gl, Some gh, Some bl, Some bh]"
    by (rule Column_ok_ColorInvl_bounds)
  with True show ?thesis
    by (cases v) (auto simp: bounds_def chained_le_Some py_and_Inr)
next
  case False
  then show ?thesis
    by (cases "type c") auto
qed

lemma check_value_failure:
  assumes "Column_ok c" and "check_value c v \<noteq> Inr ()"
  shows "check_value c v = Inl (TypeMismatch c v)"
proof -
  from value_cond_ok [OF assms(1)] obtain ok where "value_cond c v = Inr ok"
    by blast
  with assms(2) show ?thesis
    by (cases ok) (simp_all add: check_value_def)
qed

lemma get_table_Inr:
  assumes "get_table dbs dn ti = Inr t"
  obtains d where "map_of dbs dn = Some d" and "map_of (tables d) ti = Some t"
  using assms by (auto simp: get_table_def get_database_def split: option.splits)

lemma get_row_Inr:
  assumes "get_table dbs dn ti = Inr t" and "get_row dbs dn ti ri = Inr row"
  shows "map_of (rows t) ri = Some row"
  using assms by (auto simp: get_row_def split: option.splits)

lemma get_row_store_row:
  assumes "get_table dbs dn ti = Inr t"
  shows "get_row (store_row dbs dn ti ri row') dn ti ri = Inr row'"
proof -
  from assms obtain d where d: "map_of dbs dn = Some d" "map_of (tables d) ti = Some t"
    by (rule get_table_Inr)
  then show ?thesis
    by (simp add: store_row_def get_row_def get_table_def get_database_def update_conv')
qed

text \<open>
  C9. For an existing row and a column index in bounds, \<^verbatim>\<open>update_cell_value\<close> with a
  value that \<^verbatim>\<open>check_value\<close> rejects returns an error and leaves the registry, hence the
  row and each of its cells, as it was; on a validly constructed column the error is the
  400 response carrying \<open>TypeMismatch\<close>. When the value passes, and the row has one cell
  per column, the row returned and stored is the old row with cell \<open>ci\<close> overwritten.
\<close>

theorem update_cell_value_outcomes:
  assumes "get_table dbs dn ti = Inr t" and "get_row dbs dn ti ri = Inr row"
    and "ci < length (columns t)"
  shows
   "(check_value (columns t ! ci) v \<noteq> Inr () \<longrightarrow>
       (\<exists>e. fst (update_cell_value dbs dn ti ri ci v) = Inl e) \<and>
       snd (update_cell_value dbs dn ti ri ci v) = dbs \<and>
       get_row (snd (update_cell_value dbs dn ti ri ci v)) dn ti ri = Inr row) \<and>
    (check_value (columns t ! ci) v \<noteq> Inr () \<and> Column_ok (columns t ! ci) \<longrightarrow>
       fst (update_cell_value dbs dn ti ri ci v) =
         Inl (BadRequest (TypeMismatch (columns t ! ci) v))) \<and>
    (check_value (columns t ! ci) v = Inr () \<and> length (cells row) = length (columns t) \<longrightarrow>
       fst (update_cell_value dbs dn ti ri ci v) = Inr (row\<lparr>cells := (cells row)[ci := v]\<rparr>) \<and>
       get_row (snd (update_cell_value dbs dn ti ri ci v)) dn ti ri =
         Inr (row\<lparr>cells := (cells row)[ci := v]\<rparr>))"
proof -
  have fail: "(\<exists>e. fst (update_cell_value dbs dn ti ri ci v) = Inl e) \<and>
       snd (update_cell_value dbs dn ti ri ci v) = dbs \<and>
       get_row (snd (update_cell_value dbs dn ti ri ci v)) dn ti ri = Inr row"
    if "check_value (columns t ! ci) v \<noteq> Inr ()"
  proof -
    from that obtain e where "check_value (columns t ! ci) v = Inl e"
      by (cases "check_value (columns t ! ci) v") auto
    with assms show ?thesis
      by (simp add: update_cell_value_def)
  qed
  have mismatch: "fst (update_cell_value dbs dn ti ri ci v) =
         Inl (BadRequest (TypeMismatch (columns t ! ci) v))"
    if "check_value (columns t ! ci) v \<noteq> Inr ()" "Column_ok (columns t ! ci)"
    using assms check_value_failure [OF that(2) that(1)]
    by (simp add: update_cell_value_def is_ValueError_def)
  have good: "fst (update_cell_value dbs dn ti ri ci v) = Inr (row\<lparr>cells := (cells row)[ci := v]\<rparr>) \<and>
       get_row (snd (update_cell_value dbs dn ti ri ci v)) dn ti ri =
         Inr (row\<lparr>cells := (cells row)[ci := v]\<rparr>)"
    if "check_value (columns t ! ci) v = Inr ()" "length (cells row) = length (columns t)"
    using assms that
    by (simp add: update_cell_value_def Let_def get_row_store_row)
  from fail mismatch good show ?thesis by blast
qed

lemma one_database_lookup:
  "get_table one_database ''db'' 0 = Inr dup_left"
  "get_row one_database ''db'' 0 1 = Inr \<lparr>row_id = 1, cells = [VInt 2, VStr ''b'']\<rparr>"
  by (simp_all add: one_database_def get_row_def get_table_def get_database_def dup_tables)

theorem update_cell_value_outcomes_witness:
  "update_cell_value one_database ''db'' 0 1 0 (VStr ''x'') =
     (Inl (BadRequest (TypeMismatch (plain_column ''n'' Integer) (VStr ''x''))), one_database) \<and>
   get_row one_database ''db'' 0 1 = Inr \<lparr>row_id = 1, cells = [VInt 2, VStr ''b'']\<rparr> \<and>
   fst (update_cell_value one_database ''db'' 0 1 0 (VInt 7)) =
     Inr \<lparr>row_id = 1, cells = [VInt 7, VStr ''b'']\<rparr> \<and>
   get_row (snd (update_cell_value one_database ''db'' 0 1 0 (VInt 7))) ''db'' 0 1 =
     Inr \<lparr>row_id = 1, cells = [VInt 7, VStr ''b'']\<rparr>"
proof -
  have c: "(0::nat) < length (columns dup_left)"
    by (simp add: dup_tables int_str_columns_def)
  have col: "columns dup_left ! 0 = plain_column ''n'' Integer"
    by (simp add: dup_tables int_str_columns_def)
  have bad: "check_value (plain_column ''n'' Integer) (VStr ''x'') \<noteq> Inr ()"
    by (simp add: check_value_def plain_column_def)
  have ok: "check_value (plain_column ''n'' Integer) (VInt 7) = Inr ()"
    by (simp add: check_value_def plain_column_def)
  from update_cell_value_outcomes [OF one_database_lookup c, of "VStr ''x''"] bad
  have 1: "update_cell_value one_database ''db'' 0 1 0 (VStr ''x'') =
     (Inl (BadRequest (TypeMismatch (plain_column ''n'' Integer) (VStr ''x''))), one_database)"
    by (simp add: col Column_ok_plain prod_eq_iff)
  from update_cell_value_outcomes [OF one_database_lookup c, of "VInt 7"] ok
  have 2: "fst (update_cell_value one_database ''db'' 0 1 0 (VInt 7)) =
     Inr \<lparr>row_id = 1, cells = [VInt 7, VStr ''b'']\<rparr> \<and>
   get_row (snd (update_cell_value one_database ''db'' 0 1 0 (VInt 7))) ''db'' 0 1 =
     Inr \<lparr>row_id = 1, cells = [VInt 7, VStr ''b'']\<rparr>"
    by (simp add: col dup_tables int_str_columns_def)
  from 1 2 one_database_lookup(2) show ?thesis by (intro conjI) simp_all
qed

end
